theory Spec2Isabelle
  imports Main "HOL-Library.Char_ord" "HOL-Library.List_Lexorder"
    "HOL-Library.Product_Lexorder" "HOL-Library.Multiset"
begin

section \<open>Data model of knownhosts.go\<close>

text \<open>
  An \<open>ssh.PublicKey\<close> is an interface value; the package only ever calls its methods
  \<open>Type()\<close> and \<open>Marshal()\<close>, so a key is the pair of what these two return.
\<close>

record ssh_PublicKey =
  Type :: string
  Marshal :: string

text \<open>
  \<open>xknownhosts.KnownKey\<close>: a key together with the file and the line it was read from.
  \<open>Line\<close> is a Go \<open>int\<close>.
\<close>

record KnownKey =
  Key :: ssh_PublicKey
  Filename :: string
  Line :: int

text \<open>The package's own \<open>PublicKey\<close>: the embedded \<open>ssh.PublicKey\<close> and the CA flag.\<close>

record PublicKey =
  PublicKey :: ssh_PublicKey
  Cert :: bool

text \<open>
  Go error values. \<open>KeyError\<close> is \<open>*xknownhosts.KeyError\<close> with its \<open>Want\<close> field;
  \<open>ErrorString\<close> is any error that wraps nothing (\<open>errors.New\<close>, \<open>fmt.Errorf\<close> without
  \<open>%w\<close>, \<open>*xknownhosts.RevokedError\<close>, ...); \<open>Wrapped\<close> is an error with an
  \<open>Unwrap() error\<close> method (\<open>fmt.Errorf\<close> with one \<open>%w\<close>); \<open>Joined\<close> is an error with
  an \<open>Unwrap() []error\<close> method (\<open>errors.Join\<close>). The \<open>nil\<close> error is \<open>None\<close> of
  \<open>goerror option\<close>.
\<close>

datatype goerror =
    KeyError "KnownKey list"
  | ErrorString string
  | Wrapped string goerror
  | Joined "goerror list"

text \<open>
  A \<open>net.Addr\<close> is used through its \<open>String()\<close> method only; \<open>nil_Addr\<close> is the nil
  interface value, on which the method call panics.
\<close>

datatype net_Addr = nil_Addr | Addr string

type_synonym ssh_HostKeyCallback =
  "string \<Rightarrow> net_Addr \<Rightarrow> ssh_PublicKey \<Rightarrow> goerror option"

text \<open>
  \<open>HostKeyDB\<close>: the callback and the map \<open>isCert\<close>, keyed by \<open>"filename:line"\<close>. The map
  is an association list read with \<open>map_of\<close>; the nil map of a \<open>HostKeyDB\<close> literal
  without the field and the freshly made map are both \<open>[]\<close>, so that \<open>len(isCert) > 0\<close>
  is \<open>isCert \<noteq> []\<close>.
\<close>

record HostKeyDB =
  callback :: ssh_HostKeyCallback
  isCert :: "(string \<times> bool) list"

section \<open>Constants of golang.org/x/crypto/ssh\<close>

text \<open>
  The key-type and certificate-algorithm identifiers are constants of the imported package
  \<open>golang.org/x/crypto/ssh\<close> (v0.24.0 in \<open>go.mod\<close>); they are given here with the values
  that package declares.
\<close>

definition KeyAlgoRSA :: string where "KeyAlgoRSA = ''ssh-rsa''"
definition KeyAlgoDSA :: string where "KeyAlgoDSA = ''ssh-dss''"
definition KeyAlgoECDSA256 :: string where "KeyAlgoECDSA256 = ''ecdsa-sha2-nistp256''"
definition KeyAlgoSKECDSA256 :: string where
  "KeyAlgoSKECDSA256 = ''sk-ecdsa-sha2-nistp256@openssh.com''"
definition KeyAlgoECDSA384 :: string where "KeyAlgoECDSA384 = ''ecdsa-sha2-nistp384''"
definition KeyAlgoECDSA521 :: string where "KeyAlgoECDSA521 = ''ecdsa-sha2-nistp521''"
definition KeyAlgoED25519 :: string where "KeyAlgoED25519 = ''ssh-ed25519''"
definition KeyAlgoSKED25519 :: string where
  "KeyAlgoSKED25519 = ''sk-ssh-ed25519@openssh.com''"
definition KeyAlgoRSASHA256 :: string where "KeyAlgoRSASHA256 = ''rsa-sha2-256''"
definition KeyAlgoRSASHA512 :: string where "KeyAlgoRSASHA512 = ''rsa-sha2-512''"

definition CertAlgoRSAv01 :: string where
  "CertAlgoRSAv01 = ''ssh-rsa-cert-v01@openssh.com''"
definition CertAlgoDSAv01 :: string where
  "CertAlgoDSAv01 = ''ssh-dss-cert-v01@openssh.com''"
definition CertAlgoECDSA256v01 :: string where
  "CertAlgoECDSA256v01 = ''ecdsa-sha2-nistp256-cert-v01@openssh.com''"
definition CertAlgoECDSA384v01 :: string where
  "CertAlgoECDSA384v01 = ''ecdsa-sha2-nistp384-cert-v01@openssh.com''"
definition CertAlgoECDSA521v01 :: string where
  "CertAlgoECDSA521v01 = ''ecdsa-sha2-nistp521-cert-v01@openssh.com''"
definition CertAlgoSKECDSA256v01 :: string where
  "CertAlgoSKECDSA256v01 = ''sk-ecdsa-sha2-nistp256-cert-v01@openssh.com''"
definition CertAlgoED25519v01 :: string where
  "CertAlgoED25519v01 = ''ssh-ed25519-cert-v01@openssh.com''"
definition CertAlgoSKED25519v01 :: string where
  "CertAlgoSKED25519v01 = ''sk-ssh-ed25519-cert-v01@openssh.com''"
definition CertAlgoRSASHA256v01 :: string where
  "CertAlgoRSASHA256v01 = ''rsa-sha2-256-cert-v01@openssh.com''"
definition CertAlgoRSASHA512v01 :: string where
  "CertAlgoRSASHA512v01 = ''rsa-sha2-512-cert-v01@openssh.com''"

section \<open>Library functions the package calls\<close>

subsection \<open>errors.As with a target of type *KeyError\<close>

text \<open>
  \<open>errors.As(err, &keyErr)\<close> walks the tree of \<open>err\<close> in pre-order, depth first, and stops
  at the first error assignable to the target; it returns false on the nil error. The
  result here is the \<open>Want\<close> field of the \<open>KeyError\<close> found.
\<close>

fun errors_As :: "goerror \<Rightarrow> KnownKey list option"
  and errors_As_list :: "goerror list \<Rightarrow> KnownKey list option" where
  "errors_As (KeyError want) = Some want"
| "errors_As (ErrorString s) = None"
| "errors_As (Wrapped s e) = errors_As e"
| "errors_As (Joined es) = errors_As_list es"
| "errors_As_list [] = None"
| "errors_As_list (e # es) =
     (case errors_As e of Some want \<Rightarrow> Some want | None \<Rightarrow> errors_As_list es)"

definition errors_As_KeyError :: "goerror option \<Rightarrow> KnownKey list option" where
  "errors_As_KeyError err = (case err of None \<Rightarrow> None | Some e \<Rightarrow> errors_As e)"

subsection \<open>fmt.Sprintf("%s:%d", filename, line)\<close>

fun digits :: "nat \<Rightarrow> string" where
  "digits n =
     (if n < 10 then [char_of (48 + n)]
      else digits (n div 10) @ [char_of (48 + n mod 10)])"

definition itoa :: "int \<Rightarrow> string" where
  "itoa i = (if i < 0 then CHR ''-'' # digits (nat (- i)) else digits (nat i))"

definition mapKey :: "string \<Rightarrow> int \<Rightarrow> string" where
  "mapKey filename lineNum = filename @ '':'' @ itoa lineNum"

subsection \<open>sort.Slice\<close>

text \<open>
  \<open>sort.Slice\<close> is not stable. For a slice of at most 12 elements it runs its insertion
  sort, which is modelled here: each element in turn moves towards the front while it is
  \<open>less\<close> than its left neighbour. For longer slices the library runs another algorithm,
  which gives the same result up to the order of elements that \<open>less\<close> does not separate:
  there the model, which keeps such elements in their order, can differ from the code in
  the order of keys that share a position. Nothing below depends on that order, and for
  \<open>knownKeyLess\<close> the result is the very same when no two keys share a position, see
  \<open>sort_Slice_knownKeyLess_unique\<close>. \<open>insert_back\<close> works on the sorted prefix in reverse,
  the left neighbour first.
\<close>

fun insert_back :: "('a \<Rightarrow> 'a \<Rightarrow> bool) \<Rightarrow> 'a \<Rightarrow> 'a list \<Rightarrow> 'a list" where
  "insert_back lessf x [] = [x]"
| "insert_back lessf x (y # ys) =
     (if lessf x y then y # insert_back lessf x ys else x # y # ys)"

definition sort_Slice :: "('a \<Rightarrow> 'a \<Rightarrow> bool) \<Rightarrow> 'a list \<Rightarrow> 'a list" where
  "sort_Slice lessf xs = rev (foldl (\<lambda>pre x. insert_back lessf x pre) [] xs)"

section \<open>HostKeyDB.HostKeys\<close>

definition placeholderAddr :: net_Addr where
  "placeholderAddr = Addr ''0.0.0.0:0''"

definition fakePublicKey :: ssh_PublicKey where
  "fakePublicKey = \<lparr>Type = ''fake-public-key'', Marshal = ''fake public key''\<rparr>"

definition knownKeyLess :: "KnownKey \<Rightarrow> KnownKey \<Rightarrow> bool" where
  "knownKeyLess a b =
     (if Filename a < Filename b then True
      else (Filename a = Filename b \<and> Line a < Line b))"

text \<open>A read of a Go map: the zero value \<open>false\<close> for a key that is absent.\<close>

definition isCert_at :: "(string \<times> bool) list \<Rightarrow> string \<Rightarrow> bool" where
  "isCert_at m k = (case map_of m k of None \<Rightarrow> False | Some b \<Rightarrow> b)"

definition annotate :: "HostKeyDB \<Rightarrow> KnownKey \<Rightarrow> PublicKey" where
  "annotate hkdb kk =
     \<lparr>PublicKey = Key kk,
      Cert = (if isCert hkdb \<noteq> [] then isCert_at (isCert hkdb) (mapKey (Filename kk) (Line kk))
              else False)\<rparr>"

text \<open>
  The nil slice returned when \<open>errors.As\<close> fails and the empty slice made for an empty
  \<open>Want\<close> are both \<open>[]\<close>.
\<close>

definition HostKeys :: "HostKeyDB \<Rightarrow> string \<Rightarrow> PublicKey list" where
  "HostKeys hkdb hostWithPort =
     (case errors_As_KeyError (callback hkdb hostWithPort placeholderAddr fakePublicKey) of
        Some want \<Rightarrow> map (annotate hkdb) (sort_Slice knownKeyLess want)
      | None \<Rightarrow> [])"

section \<open>HostKeyDB.HostKeyAlgorithms\<close>

definition keyTypeToCertAlgo :: "string \<Rightarrow> string" where
  "keyTypeToCertAlgo keyType =
     (if keyType = KeyAlgoRSA then CertAlgoRSAv01
      else if keyType = KeyAlgoRSASHA256 then CertAlgoRSASHA256v01
      else if keyType = KeyAlgoRSASHA512 then CertAlgoRSASHA512v01
      else if keyType = KeyAlgoDSA then CertAlgoDSAv01
      else if keyType = KeyAlgoECDSA256 then CertAlgoECDSA256v01
      else if keyType = KeyAlgoSKECDSA256 then CertAlgoSKECDSA256v01
      else if keyType = KeyAlgoECDSA384 then CertAlgoECDSA384v01
      else if keyType = KeyAlgoECDSA521 then CertAlgoECDSA521v01
      else if keyType = KeyAlgoED25519 then CertAlgoED25519v01
      else if keyType = KeyAlgoSKED25519 then CertAlgoSKED25519v01
      else '''')"

text \<open>
  The closure \<open>addAlgo\<close> updates the two variables it captures: the result slice \<open>algos\<close>
  and the set \<open>seen\<close> (a \<open>map[string]struct{}\<close>).
\<close>

record algo_state =
  algos :: "string list"
  seen :: "string set"

definition addAlgo :: "string \<Rightarrow> bool \<Rightarrow> algo_state \<Rightarrow> algo_state" where
  "addAlgo typ cert st =
     (let typ' = (if cert then keyTypeToCertAlgo typ else typ) in
      if typ' \<notin> seen st then \<lparr>algos = algos st @ [typ'], seen = insert typ' (seen st)\<rparr>
      else st)"

text \<open>One iteration of the loop over \<open>hostKeys\<close>.\<close>

definition algo_step :: "algo_state \<Rightarrow> PublicKey \<Rightarrow> algo_state" where
  "algo_step st key =
     (let typ = Type (PublicKey key);
          st1 = (if typ = KeyAlgoRSA
                 then addAlgo KeyAlgoRSASHA256 (Cert key) (addAlgo KeyAlgoRSASHA512 (Cert key) st)
                 else st)
      in addAlgo typ (Cert key) st1)"

definition HostKeyAlgorithms :: "HostKeyDB \<Rightarrow> string \<Rightarrow> string list" where
  "HostKeyAlgorithms hkdb hostWithPort =
     algos (foldl algo_step \<lparr>algos = [], seen = {}\<rparr> (HostKeys hkdb hostWithPort))"

section \<open>HostKeyCallback: the variant without CA support\<close>

text \<open>
  \<open>HostKeyCallback\<close> is the callback type itself. Its methods build a \<open>HostKeyDB\<close> literal
  with the callback only, which leaves \<open>isCert\<close> nil.
\<close>

definition HostKeyCallback_HostKeys :: "ssh_HostKeyCallback \<Rightarrow> string \<Rightarrow> ssh_PublicKey list" where
  "HostKeyCallback_HostKeys hkcb hostWithPort =
     map PublicKey (HostKeys \<lparr>callback = hkcb, isCert = []\<rparr> hostWithPort)"

definition HostKeyCallback_HostKeyAlgorithms :: "ssh_HostKeyCallback \<Rightarrow> string \<Rightarrow> string list" where
  "HostKeyCallback_HostKeyAlgorithms hkcb hostWithPort =
     HostKeyAlgorithms \<lparr>callback = hkcb, isCert = []\<rparr> hostWithPort"

section \<open>IsHostKeyChanged and IsHostUnknown\<close>

definition IsHostKeyChanged :: "goerror option \<Rightarrow> bool" where
  "IsHostKeyChanged err =
     (case errors_As_KeyError err of None \<Rightarrow> False | Some want \<Rightarrow> length want > 0)"

definition IsHostUnknown :: "goerror option \<Rightarrow> bool" where
  "IsHostUnknown err =
     (case errors_As_KeyError err of None \<Rightarrow> False | Some want \<Rightarrow> length want = 0)"

section \<open>Normalize\<close>

subsection \<open>net.SplitHostPort and the string functions\<close>

text \<open>
  \<open>IndexByteString\<close> and \<open>LastIndexByteString\<close> return \<open>-1\<close> in Go when the byte does not
  occur; that is \<open>None\<close> here.
\<close>

fun IndexByteString :: "string \<Rightarrow> char \<Rightarrow> nat option" where
  "IndexByteString [] c = None"
| "IndexByteString (x # xs) c =
     (if x = c then Some 0 else map_option Suc (IndexByteString xs c))"

definition LastIndexByteString :: "string \<Rightarrow> char \<Rightarrow> nat option" where
  "LastIndexByteString s c =
     map_option (\<lambda>i. length s - 1 - i) (IndexByteString (rev s) c)"

text \<open>\<open>*net.AddrError\<close>, with its fields \<open>Err\<close> and \<open>Addr\<close> in this order.\<close>

datatype AddrError = AddrError string string

definition missingPort :: string where
  "missingPort = ''missing port in address''"

definition tooManyColons :: string where
  "tooManyColons = ''too many colons in address''"

text \<open>
  The end of \<open>net.SplitHostPort\<close>: no \<open>[\<close> from position \<open>j\<close> on, no \<open>]\<close> from position
  \<open>k\<close> on, and the port is what follows the last colon, at \<open>i\<close>.
\<close>

definition SplitHostPort_rest ::
  "string \<Rightarrow> nat \<Rightarrow> string \<Rightarrow> nat \<Rightarrow> nat \<Rightarrow> AddrError + (string \<times> string)" where
  "SplitHostPort_rest hostport i host j k =
     (if IndexByteString (drop j hostport) (CHR ''['') \<noteq> None
        then Inl (AddrError (''unexpected '' @ [CHR 0x27, CHR ''['', CHR 0x27] @ '' in address'') hostport)
      else if IndexByteString (drop k hostport) (CHR '']'') \<noteq> None
        then Inl (AddrError (''unexpected '' @ [CHR 0x27, CHR '']'', CHR 0x27] @ '' in address'') hostport)
      else Inr (host, drop (i + 1) hostport))"

text \<open>
  \<open>net.SplitHostPort\<close>, branch by branch. The two indexed reads \<open>hostport[0]\<close> and
  \<open>hostport[closing+1]\<close> are in range where they are made: a last colon exists, and
  \<open>closing + 1\<close> is not the length.
\<close>

definition SplitHostPort :: "string \<Rightarrow> AddrError + (string \<times> string)" where
  "SplitHostPort hostport =
     (case LastIndexByteString hostport (CHR '':'') of
        None \<Rightarrow> Inl (AddrError missingPort hostport)
      | Some i \<Rightarrow>
          if hostport ! 0 = CHR ''['' then
            (case IndexByteString hostport (CHR '']'') of
               None \<Rightarrow>
                 Inl (AddrError (''missing '' @ [CHR 0x27, CHR '']'', CHR 0x27] @ '' in address'') hostport)
             | Some closing \<Rightarrow>
                 if closing + 1 = length hostport then Inl (AddrError missingPort hostport)
                 else if closing + 1 = i then
                   SplitHostPort_rest hostport i (take (closing - 1) (drop 1 hostport)) 1 (closing + 1)
                 else if hostport ! (closing + 1) = CHR '':''
                   then Inl (AddrError tooManyColons hostport)
                 else Inl (AddrError missingPort hostport))
          else
            (let host = take i hostport in
             if IndexByteString host (CHR '':'') \<noteq> None
               then Inl (AddrError tooManyColons hostport)
             else SplitHostPort_rest hostport i host 0 0))"

definition HasPrefix :: "string \<Rightarrow> string \<Rightarrow> bool" where
  "HasPrefix s pre = (length pre \<le> length s \<and> take (length pre) s = pre)"

definition HasSuffix :: "string \<Rightarrow> string \<Rightarrow> bool" where
  "HasSuffix s suf = (length suf \<le> length s \<and> drop (length s - length suf) s = suf)"

text \<open>\<open>strings.ContainsAny\<close>, for a set of ASCII characters.\<close>

definition ContainsAny :: "string \<Rightarrow> string \<Rightarrow> bool" where
  "ContainsAny s chars = (\<exists>c \<in> set chars. c \<in> set s)"

text \<open>
  A slice expression \<open>s[lo:hi]\<close> panics at run time unless \<open>0 \<le> lo \<le> hi \<le> len(s)\<close>;
  the panic is \<open>None\<close>.
\<close>

definition go_slice :: "string \<Rightarrow> int \<Rightarrow> int \<Rightarrow> string option" where
  "go_slice s lo hi =
     (if 0 \<le> lo \<and> lo \<le> hi \<and> hi \<le> int (length s)
      then Some (take (nat hi - nat lo) (drop (nat lo) s)) else None)"

subsection \<open>Normalize\<close>

text \<open>
  \<open>Normalize\<close> has no error result; the only way it can fail is a run-time panic of its
  slice expression, which is the result \<open>None\<close>.
\<close>

definition Normalize :: "string \<Rightarrow> string option" where
  "Normalize address =
     (let (host, port) =
            (case SplitHostPort address of
               Inl err \<Rightarrow> (address, ''22'')
             | Inr (h, p) \<Rightarrow> (h, p));
          entry = host
      in if port \<noteq> ''22'' then Some (''['' @ entry @ '']:'' @ port)
         else if HasPrefix host ''['' \<and> HasSuffix host '']''
           then go_slice entry 1 (int (length entry) - 1)
         else Some entry)"

section \<open>Line and WriteKnownHost\<close>

fun Join :: "string list \<Rightarrow> string \<Rightarrow> string" where
  "Join [] sep = []"
| "Join [x] sep = x"
| "Join (x # y # ys) sep = x @ sep @ Join (y # ys) sep"

text \<open>
  \<open>base64.StdEncoding.EncodeToString\<close> is the parameter \<open>encodeToString\<close>. A panic of
  \<open>Normalize\<close> on any address is a panic of \<open>Line\<close>. The function \<open>Line\<close> of the package
  is \<open>knownhosts_Line\<close> here, the name \<open>Line\<close> being the field of \<open>KnownKey\<close>.
\<close>

definition knownhosts_Line ::
  "(string \<Rightarrow> string) \<Rightarrow> string list \<Rightarrow> ssh_PublicKey \<Rightarrow> string option" where
  "knownhosts_Line encodeToString addresses key =
     (case those (map Normalize addresses) of
        None \<Rightarrow> None
      | Some trimmed \<Rightarrow>
          Some (Join [Join trimmed '','', Type key, encodeToString (Marshal key)] '' ''))"

text \<open>
  An \<open>io.Writer\<close>: the byte slices its \<open>Write\<close> method has received so far, and the error
  the method answers to a byte slice.
\<close>

record io_Writer =
  received :: "string list"
  answer :: "string \<Rightarrow> goerror option"

definition Write :: "io_Writer \<Rightarrow> string \<Rightarrow> io_Writer \<times> goerror option" where
  "Write w p = (w\<lparr>received := received w @ [p]\<rparr>, answer w p)"

text \<open>
  \<open>WriteKnownHost\<close> returns the writer as it has become and the error; \<open>None\<close> is a
  run-time panic (of \<open>Normalize\<close>, or of \<open>remote.String()\<close> on a nil \<open>remote\<close>).
\<close>

definition WriteKnownHost ::
  "(string \<Rightarrow> string) \<Rightarrow> io_Writer \<Rightarrow> string \<Rightarrow> net_Addr \<Rightarrow> ssh_PublicKey
     \<Rightarrow> (io_Writer \<times> goerror option) option" where
  "WriteKnownHost encodeToString w hostname remote key =
     (case Normalize hostname of
        None \<Rightarrow> None
      | Some hostnameNormalized \<Rightarrow>
          if ContainsAny hostnameNormalized [CHR 0x09, CHR '' '']
          then Some (w, Some (ErrorString
                 (''knownhosts: hostname '' @ [CHR 0x27] @ hostnameNormalized @ [CHR 0x27]
                    @ '' contains spaces'')))
          else
            (case remote of
               nil_Addr \<Rightarrow> None
             | Addr remoteStr \<Rightarrow>
                 (case Normalize remoteStr of
                    None \<Rightarrow> None
                  | Some remoteStrNormalized \<Rightarrow>
                      (let addresses =
                             [hostnameNormalized] @
                             (if remoteStrNormalized \<noteq> ''[0.0.0.0]:0''
                                 \<and> remoteStrNormalized \<noteq> hostnameNormalized
                                 \<and> \<not> ContainsAny remoteStrNormalized [CHR 0x09, CHR '' '']
                              then [remoteStrNormalized] else [])
                       in case knownhosts_Line encodeToString addresses key of
                            None \<Rightarrow> None
                          | Some line \<Rightarrow> Some (Write w (line @ [CHR 0x0A]))))))"

section \<open>Notions of the specification\<close>

text \<open>
  The definitions of this section are not translations of source functions: they say in
  HOL what the specification's sentences speak of, to compare the code with them.
\<close>

text \<open>First-seen order without duplicates: every element stays at its first occurrence.\<close>

primrec first_seen :: "'a list \<Rightarrow> 'a list" where
  "first_seen [] = []"
| "first_seen (x # xs) = x # filter (\<lambda>y. y \<noteq> x) (first_seen xs)"

text \<open>
  What one known key emits, before deduplication: for the generic RSA type the SHA-512
  and the SHA-256 identifier and then the type itself, otherwise the type alone; each
  replaced by its certificate algorithm when the key is flagged as CA.
\<close>

definition substituted :: "bool \<Rightarrow> string \<Rightarrow> string" where
  "substituted cert typ = (if cert then keyTypeToCertAlgo typ else typ)"

definition emitted :: "PublicKey \<Rightarrow> string list" where
  "emitted key =
     (if Type (PublicKey key) = KeyAlgoRSA
      then [substituted (Cert key) KeyAlgoRSASHA512, substituted (Cert key) KeyAlgoRSASHA256]
      else [])
     @ [substituted (Cert key) (Type (PublicKey key))]"

text \<open>
  One emission with deduplication on the final string: what \<open>addAlgo\<close> does once the
  substitution is made.
\<close>

definition push :: "algo_state \<Rightarrow> string \<Rightarrow> algo_state" where
  "push st a =
     (if a \<notin> seen st then \<lparr>algos = algos st @ [a], seen = insert a (seen st)\<rparr> else st)"

text \<open>The key types that the switch of \<open>keyTypeToCertAlgo\<close> lists, and the values it gives them.\<close>

definition tableKeyTypes :: "string list" where
  "tableKeyTypes =
     [KeyAlgoRSA, KeyAlgoRSASHA256, KeyAlgoRSASHA512, KeyAlgoDSA, KeyAlgoECDSA256,
      KeyAlgoSKECDSA256, KeyAlgoECDSA384, KeyAlgoECDSA521, KeyAlgoED25519, KeyAlgoSKED25519]"

definition CertAlgos :: "string list" where
  "CertAlgos =
     [CertAlgoRSAv01, CertAlgoRSASHA256v01, CertAlgoRSASHA512v01, CertAlgoDSAv01,
      CertAlgoECDSA256v01, CertAlgoSKECDSA256v01, CertAlgoECDSA384v01, CertAlgoECDSA521v01,
      CertAlgoED25519v01, CertAlgoSKED25519v01]"

text \<open>The position of a known key, ordered lexicographically: file name, then line.\<close>

definition position :: "KnownKey \<Rightarrow> string \<times> int" where
  "position kk = (Filename kk, Line kk)"

text \<open>All \<open>KeyError\<close> values in the tree of an error, in the order \<open>errors.As\<close> visits them.\<close>

fun KeyErrors_of :: "goerror \<Rightarrow> KnownKey list list"
  and KeyErrors_of_list :: "goerror list \<Rightarrow> KnownKey list list" where
  "KeyErrors_of (KeyError want) = [want]"
| "KeyErrors_of (ErrorString s) = []"
| "KeyErrors_of (Wrapped s e) = KeyErrors_of e"
| "KeyErrors_of (Joined es) = KeyErrors_of_list es"
| "KeyErrors_of_list [] = []"
| "KeyErrors_of_list (e # es) = KeyErrors_of e @ KeyErrors_of_list es"

section \<open>Example inputs\<close>

definition key_at :: "string \<Rightarrow> string \<Rightarrow> string \<Rightarrow> int \<Rightarrow> KnownKey" where
  "key_at typ blob file line = \<lparr>Key = \<lparr>Type = typ, Marshal = blob\<rparr>, Filename = file, Line = line\<rparr>"

text \<open>A callback that knows the keys \<open>want\<close> for the host \<open>known\<close> and no key for any other host.\<close>

definition mismatch_callback :: "string \<Rightarrow> KnownKey list \<Rightarrow> ssh_HostKeyCallback" where
  "mismatch_callback known want =
     (\<lambda>hostname remote key.
        if hostname = known then Some (KeyError want) else Some (KeyError []))"

text \<open>A callback that fails with an error that is no \<open>KeyError\<close>.\<close>

definition failing_callback :: "string \<Rightarrow> ssh_HostKeyCallback" where
  "failing_callback msg = (\<lambda>hostname remote key. Some (ErrorString msg))"

definition buffer :: io_Writer where
  "buffer = \<lparr>received = [], answer = (\<lambda>p. None)\<rparr>"

section \<open>The algorithm list\<close>

lemmas KeyAlgo_defs =
  KeyAlgoRSA_def KeyAlgoDSA_def KeyAlgoECDSA256_def KeyAlgoSKECDSA256_def
  KeyAlgoECDSA384_def KeyAlgoECDSA521_def KeyAlgoED25519_def KeyAlgoSKED25519_def
  KeyAlgoRSASHA256_def KeyAlgoRSASHA512_def

lemmas CertAlgo_defs =
  CertAlgoRSAv01_def CertAlgoDSAv01_def CertAlgoECDSA256v01_def CertAlgoECDSA384v01_def
  CertAlgoECDSA521v01_def CertAlgoSKECDSA256v01_def CertAlgoED25519v01_def
  CertAlgoSKED25519v01_def CertAlgoRSASHA256v01_def CertAlgoRSASHA512v01_def

subsection \<open>The loop of HostKeyAlgorithms emits in first-seen order\<close>

lemma addAlgo_push: "addAlgo typ cert st = push st (substituted cert typ)"
  by (simp add: addAlgo_def push_def substituted_def Let_def)

lemma algo_step_push: "algo_step st key = foldl push st (emitted key)"
  by (simp add: algo_step_def emitted_def addAlgo_push Let_def)

lemma foldl_algo_step: "foldl algo_step st keys = foldl push st (concat (map emitted keys))"
  by (induction keys arbitrary: st) (simp_all add: algo_step_push)

lemma set_first_seen: "set (first_seen xs) = set xs"
  by (induction xs) auto

lemma distinct_first_seen: "distinct (first_seen xs)"
  by (induction xs) auto

text \<open>The invariant of the loop: \<open>seen\<close> holds exactly the elements of \<open>algos\<close>.\<close>

lemma foldl_push:
  "seen st = set (algos st) \<Longrightarrow>
   algos (foldl push st xs) = algos st @ filter (\<lambda>x. x \<notin> set (algos st)) (first_seen xs)"
proof (induction xs arbitrary: st)
  case Nil
  then show ?case by simp
next
  case (Cons x xs)
  show ?case
  proof (cases "x \<in> seen st")
    case True
    then have "push st x = st" by (simp add: push_def)
    moreover have "filter (\<lambda>y. y \<notin> set (algos st)) (filter (\<lambda>y. y \<noteq> x) (first_seen xs))
        = filter (\<lambda>y. y \<notin> set (algos st)) (first_seen xs)"
      using True Cons.prems by (auto intro: filter_cong)
    ultimately show ?thesis using Cons True by simp
  next
    case False
    let ?st = "\<lparr>algos = algos st @ [x], seen = insert x (seen st)\<rparr>"
    have p: "push st x = ?st" using False by (simp add: push_def)
    have inv: "seen ?st = set (algos ?st)" using Cons.prems by simp
    have "filter (\<lambda>y. y \<notin> set (algos ?st)) (first_seen xs)
        = filter (\<lambda>y. y \<notin> set (algos st)) (filter (\<lambda>y. y \<noteq> x) (first_seen xs))"
      by (auto intro: filter_cong)
    then show ?thesis using Cons.IH[OF inv] p False Cons.prems by simp
  qed
qed

lemma HostKeyAlgorithms_first_seen:
  "HostKeyAlgorithms hkdb host = first_seen (concat (map emitted (HostKeys hkdb host)))"
  by (simp add: HostKeyAlgorithms_def foldl_algo_step foldl_push)

lemma set_HostKeyAlgorithms:
  "set (HostKeyAlgorithms hkdb host) = (\<Union>k \<in> set (HostKeys hkdb host). set (emitted k))"
  by (simp add: HostKeyAlgorithms_first_seen set_first_seen)

subsection \<open>Evaluating the example callbacks\<close>

lemma sort_Slice_single: "sort_Slice lessf [x] = [x]"
  by (simp add: sort_Slice_def)

lemma HostKeys_mismatch:
  "HostKeys \<lparr>callback = mismatch_callback h want, isCert = m\<rparr> h
     = map (annotate \<lparr>callback = mismatch_callback h want, isCert = m\<rparr>)
         (sort_Slice knownKeyLess want)"
  by (simp add: HostKeys_def mismatch_callback_def errors_As_KeyError_def)

subsection \<open>RSA\<close>

text \<open>
  C1. A host with exactly one known key, of type \<open>ssh-rsa\<close> and not flagged as CA: the
  result of \<open>HostKeyDB.HostKeyAlgorithms\<close> is \<open>rsa-sha2-512\<close>, \<open>rsa-sha2-256\<close>, \<open>ssh-rsa\<close>,
  in this order.
\<close>

theorem HostKeyAlgorithms_rsa_order:
  assumes "HostKeys hkdb host = [k]" and "Type (PublicKey k) = KeyAlgoRSA" and "\<not> Cert k"
  shows "HostKeyAlgorithms hkdb host = [KeyAlgoRSASHA512, KeyAlgoRSASHA256, KeyAlgoRSA]"
  using assms
  by (simp add: HostKeyAlgorithms_first_seen emitted_def substituted_def KeyAlgo_defs)

theorem HostKeyAlgorithms_rsa_order_witness:
  "HostKeys \<lparr>callback = mismatch_callback ''example.com:22''
                [key_at KeyAlgoRSA ''AAAAB3Nza'' ''known_hosts'' 1], isCert = []\<rparr>
      ''example.com:22''
     = [\<lparr>PublicKey = \<lparr>Type = ''ssh-rsa'', Marshal = ''AAAAB3Nza''\<rparr>, Cert = False\<rparr>]
   \<and> HostKeyAlgorithms \<lparr>callback = mismatch_callback ''example.com:22''
                [key_at KeyAlgoRSA ''AAAAB3Nza'' ''known_hosts'' 1], isCert = []\<rparr>
      ''example.com:22''
     = [''rsa-sha2-512'', ''rsa-sha2-256'', ''ssh-rsa'']"
proof -
  let ?db = "\<lparr>callback = mismatch_callback ''example.com:22''
               [key_at KeyAlgoRSA ''AAAAB3Nza'' ''known_hosts'' 1], isCert = []\<rparr>"
  let ?k = "\<lparr>PublicKey = \<lparr>Type = ''ssh-rsa'', Marshal = ''AAAAB3Nza''\<rparr>, Cert = False\<rparr>"
  have h: "HostKeys ?db ''example.com:22'' = [?k]"
    by (simp add: HostKeys_mismatch sort_Slice_single annotate_def key_at_def KeyAlgoRSA_def)
  have "HostKeyAlgorithms ?db ''example.com:22''
          = [KeyAlgoRSASHA512, KeyAlgoRSASHA256, KeyAlgoRSA]"
    using HostKeyAlgorithms_rsa_order [OF h] by (simp add: KeyAlgoRSA_def)
  then show ?thesis using h by (simp add: KeyAlgo_defs)
qed

subsection \<open>CA substitution\<close>

lemma emitted_Cert_substitution:
  "Cert k \<Longrightarrow> a \<in> set (emitted k) \<Longrightarrow> \<exists>t. a = keyTypeToCertAlgo t"
  by (auto simp add: emitted_def substituted_def split: if_splits)

lemma distinct_count_one: "distinct xs \<Longrightarrow> x \<in> set xs \<Longrightarrow> count_list xs x = 1"
  by (induction xs) auto

lemma last_emitted: "substituted (Cert k) (Type (PublicKey k)) \<in> set (emitted k)"
  by (simp add: emitted_def)

text \<open>The table of \<open>keyTypeToCertAlgo\<close>, entry by entry.\<close>

lemma keyTypeToCertAlgo_table:
  "keyTypeToCertAlgo KeyAlgoRSA = CertAlgoRSAv01"
  "keyTypeToCertAlgo KeyAlgoRSASHA256 = CertAlgoRSASHA256v01"
  "keyTypeToCertAlgo KeyAlgoRSASHA512 = CertAlgoRSASHA512v01"
  "keyTypeToCertAlgo KeyAlgoDSA = CertAlgoDSAv01"
  "keyTypeToCertAlgo KeyAlgoECDSA256 = CertAlgoECDSA256v01"
  "keyTypeToCertAlgo KeyAlgoSKECDSA256 = CertAlgoSKECDSA256v01"
  "keyTypeToCertAlgo KeyAlgoECDSA384 = CertAlgoECDSA384v01"
  "keyTypeToCertAlgo KeyAlgoECDSA521 = CertAlgoECDSA521v01"
  "keyTypeToCertAlgo KeyAlgoED25519 = CertAlgoED25519v01"
  "keyTypeToCertAlgo KeyAlgoSKED25519 = CertAlgoSKED25519v01"
  by (simp_all add: keyTypeToCertAlgo_def KeyAlgo_defs)

lemma map_keyTypeToCertAlgo_table: "map keyTypeToCertAlgo tableKeyTypes = CertAlgos"
  by (simp add: tableKeyTypes_def CertAlgos_def keyTypeToCertAlgo_table)

lemma HostKeyAlgorithms_single:
  assumes "HostKeys hkdb host = [k]"
  shows "HostKeyAlgorithms hkdb host = first_seen (emitted k)"
  using assms by (simp add: HostKeyAlgorithms_first_seen)

text \<open>
  C2. A host whose only known key is an ed25519 key flagged as CA gets the one-element
  list of the ed25519 certificate algorithm, and not the plain identifier. In general,
  for a CA-flagged key the identifier emitted is the certificate algorithm that the
  table of \<open>keyTypeToCertAlgo\<close> gives for the type of the key: the table maps the ten key
  types to their ten certificate algorithms, one by one; the certificate algorithm of
  the type of every CA-flagged key is in the result; a single CA-flagged key of another
  type than \<open>ssh-rsa\<close> gives exactly its certificate algorithm, and a single CA-flagged
  \<open>ssh-rsa\<close> key gives the three RSA certificate algorithms; and when all keys of the host
  are flagged, every identifier returned is a value of the table.
\<close>

theorem HostKeyAlgorithms_ca_substitution:
  "(HostKeys hkdb host = [k] \<and> Type (PublicKey k) = KeyAlgoED25519 \<and> Cert k
      \<longrightarrow> HostKeyAlgorithms hkdb host = [CertAlgoED25519v01]
          \<and> KeyAlgoED25519 \<notin> set (HostKeyAlgorithms hkdb host))
   \<and> (k' \<in> set (HostKeys hkdb host) \<and> Cert k'
      \<longrightarrow> keyTypeToCertAlgo (Type (PublicKey k')) \<in> set (HostKeyAlgorithms hkdb host))
   \<and> ((\<forall>key \<in> set (HostKeys hkdb host). Cert key)
      \<longrightarrow> (\<forall>a \<in> set (HostKeyAlgorithms hkdb host). \<exists>t. a = keyTypeToCertAlgo t))
   \<and> keyTypeToCertAlgo KeyAlgoRSA = CertAlgoRSAv01
   \<and> keyTypeToCertAlgo KeyAlgoRSASHA256 = CertAlgoRSASHA256v01
   \<and> keyTypeToCertAlgo KeyAlgoRSASHA512 = CertAlgoRSASHA512v01
   \<and> keyTypeToCertAlgo KeyAlgoDSA = CertAlgoDSAv01
   \<and> keyTypeToCertAlgo KeyAlgoECDSA256 = CertAlgoECDSA256v01
   \<and> keyTypeToCertAlgo KeyAlgoSKECDSA256 = CertAlgoSKECDSA256v01
   \<and> keyTypeToCertAlgo KeyAlgoECDSA384 = CertAlgoECDSA384v01
   \<and> keyTypeToCertAlgo KeyAlgoECDSA521 = CertAlgoECDSA521v01
   \<and> keyTypeToCertAlgo KeyAlgoED25519 = CertAlgoED25519v01
   \<and> keyTypeToCertAlgo KeyAlgoSKED25519 = CertAlgoSKED25519v01
   \<and> (\<forall>i < length tableKeyTypes.
         k' \<in> set (HostKeys hkdb host) \<and> Cert k' \<and> Type (PublicKey k') = tableKeyTypes ! i
         \<longrightarrow> CertAlgos ! i \<in> set (HostKeyAlgorithms hkdb host))
   \<and> (HostKeys hkdb host = [k] \<and> Cert k \<and> Type (PublicKey k) \<noteq> KeyAlgoRSA
      \<longrightarrow> HostKeyAlgorithms hkdb host = [keyTypeToCertAlgo (Type (PublicKey k))])
   \<and> (HostKeys hkdb host = [k] \<and> Cert k \<and> Type (PublicKey k) = KeyAlgoRSA
      \<longrightarrow> HostKeyAlgorithms hkdb host
            = [CertAlgoRSASHA512v01, CertAlgoRSASHA256v01, CertAlgoRSAv01])"
proof -
  have 1: "HostKeyAlgorithms hkdb host = [CertAlgoED25519v01]
          \<and> KeyAlgoED25519 \<notin> set (HostKeyAlgorithms hkdb host)"
    if "HostKeys hkdb host = [k] \<and> Type (PublicKey k) = KeyAlgoED25519 \<and> Cert k"
  proof -
    have "HostKeyAlgorithms hkdb host = [CertAlgoED25519v01]"
      using that by (simp add: HostKeyAlgorithms_first_seen emitted_def substituted_def
          keyTypeToCertAlgo_def KeyAlgo_defs)
    then show ?thesis by (simp add: KeyAlgoED25519_def CertAlgoED25519v01_def)
  qed
  have 2: "keyTypeToCertAlgo (Type (PublicKey k')) \<in> set (HostKeyAlgorithms hkdb host)"
    if "k' \<in> set (HostKeys hkdb host) \<and> Cert k'"
    using that last_emitted [of k'] by (auto simp add: set_HostKeyAlgorithms substituted_def)
  have 3: "\<forall>a \<in> set (HostKeyAlgorithms hkdb host). \<exists>t. a = keyTypeToCertAlgo t"
    if "\<forall>key \<in> set (HostKeys hkdb host). Cert key"
    using that by (auto simp add: set_HostKeyAlgorithms dest: emitted_Cert_substitution)
  have 4: "\<forall>i < length tableKeyTypes.
         k' \<in> set (HostKeys hkdb host) \<and> Cert k' \<and> Type (PublicKey k') = tableKeyTypes ! i
         \<longrightarrow> CertAlgos ! i \<in> set (HostKeyAlgorithms hkdb host)"
  proof (intro allI impI)
    fix i
    assume i: "i < length tableKeyTypes"
      and a: "k' \<in> set (HostKeys hkdb host) \<and> Cert k' \<and> Type (PublicKey k') = tableKeyTypes ! i"
    have "CertAlgos ! i = keyTypeToCertAlgo (tableKeyTypes ! i)"
      using i by (simp add: map_keyTypeToCertAlgo_table [symmetric])
    then show "CertAlgos ! i \<in> set (HostKeyAlgorithms hkdb host)"
      using 2 a by simp
  qed
  have 5: "HostKeyAlgorithms hkdb host = [keyTypeToCertAlgo (Type (PublicKey k))]"
    if "HostKeys hkdb host = [k] \<and> Cert k \<and> Type (PublicKey k) \<noteq> KeyAlgoRSA"
    using that by (simp add: HostKeyAlgorithms_single emitted_def substituted_def)
  have 6: "HostKeyAlgorithms hkdb host
            = [CertAlgoRSASHA512v01, CertAlgoRSASHA256v01, CertAlgoRSAv01]"
    if "HostKeys hkdb host = [k] \<and> Cert k \<and> Type (PublicKey k) = KeyAlgoRSA"
  proof -
    have "emitted k = [CertAlgoRSASHA512v01, CertAlgoRSASHA256v01, CertAlgoRSAv01]"
      using that by (simp add: emitted_def substituted_def keyTypeToCertAlgo_table)
    then show ?thesis
      using that by (simp add: HostKeyAlgorithms_single CertAlgo_defs)
  qed
  from 1 2 3 4 5 6 keyTypeToCertAlgo_table show ?thesis by blast
qed

theorem HostKeyAlgorithms_ca_substitution_witness:
  "HostKeys \<lparr>callback = mismatch_callback ''ca.example.com:22''
                [key_at KeyAlgoED25519 ''AAAAC3Nza'' ''known_hosts'' 7],
             isCert = [(''known_hosts:7'', True)]\<rparr> ''ca.example.com:22''
     = [\<lparr>PublicKey = \<lparr>Type = ''ssh-ed25519'', Marshal = ''AAAAC3Nza''\<rparr>, Cert = True\<rparr>]
   \<and> HostKeyAlgorithms \<lparr>callback = mismatch_callback ''ca.example.com:22''
                [key_at KeyAlgoED25519 ''AAAAC3Nza'' ''known_hosts'' 7],
             isCert = [(''known_hosts:7'', True)]\<rparr> ''ca.example.com:22''
     = [''ssh-ed25519-cert-v01@openssh.com'']
   \<and> ''ssh-ed25519'' \<notin> set (HostKeyAlgorithms \<lparr>callback = mismatch_callback ''ca.example.com:22''
                [key_at KeyAlgoED25519 ''AAAAC3Nza'' ''known_hosts'' 7],
             isCert = [(''known_hosts:7'', True)]\<rparr> ''ca.example.com:22'')
   \<and> HostKeys \<lparr>callback = mismatch_callback ''ca.example.com:22''
                [key_at KeyAlgoRSA ''AAAAB3Nza'' ''known_hosts'' 7],
             isCert = [(''known_hosts:7'', True)]\<rparr> ''ca.example.com:22''
     = [\<lparr>PublicKey = \<lparr>Type = ''ssh-rsa'', Marshal = ''AAAAB3Nza''\<rparr>, Cert = True\<rparr>]
   \<and> HostKeyAlgorithms \<lparr>callback = mismatch_callback ''ca.example.com:22''
                [key_at KeyAlgoRSA ''AAAAB3Nza'' ''known_hosts'' 7],
             isCert = [(''known_hosts:7'', True)]\<rparr> ''ca.example.com:22''
     = [''rsa-sha2-512-cert-v01@openssh.com'', ''rsa-sha2-256-cert-v01@openssh.com'',
        ''ssh-rsa-cert-v01@openssh.com'']"
proof -
  let ?db = "\<lparr>callback = mismatch_callback ''ca.example.com:22''
                [key_at KeyAlgoED25519 ''AAAAC3Nza'' ''known_hosts'' 7],
             isCert = [(''known_hosts:7'', True)]\<rparr>"
  let ?k = "\<lparr>PublicKey = \<lparr>Type = ''ssh-ed25519'', Marshal = ''AAAAC3Nza''\<rparr>, Cert = True\<rparr>"
  let ?rdb = "\<lparr>callback = mismatch_callback ''ca.example.com:22''
                [key_at KeyAlgoRSA ''AAAAB3Nza'' ''known_hosts'' 7],
             isCert = [(''known_hosts:7'', True)]\<rparr>"
  let ?rk = "\<lparr>PublicKey = \<lparr>Type = ''ssh-rsa'', Marshal = ''AAAAB3Nza''\<rparr>, Cert = True\<rparr>"
  have m: "mapKey ''known_hosts'' 7 = ''known_hosts:7''"
    by code_simp
  have h: "HostKeys ?db ''ca.example.com:22'' = [?k]"
    by (simp add: HostKeys_mismatch sort_Slice_single annotate_def key_at_def
        KeyAlgoED25519_def isCert_at_def m)
  have rh: "HostKeys ?rdb ''ca.example.com:22'' = [?rk]"
    by (simp add: HostKeys_mismatch sort_Slice_single annotate_def key_at_def
        KeyAlgoRSA_def isCert_at_def m)
  have e: "HostKeyAlgorithms ?db ''ca.example.com:22'' = [CertAlgoED25519v01]
        \<and> KeyAlgoED25519 \<notin> set (HostKeyAlgorithms ?db ''ca.example.com:22'')"
    using HostKeyAlgorithms_ca_substitution [of ?db "''ca.example.com:22''" ?k ?k] h
    by (simp add: KeyAlgoED25519_def CertAlgoED25519v01_def)
  have "HostKeys ?rdb ''ca.example.com:22'' = [?rk] \<and> Cert ?rk \<and> Type (PublicKey ?rk) = KeyAlgoRSA
      \<longrightarrow> HostKeyAlgorithms ?rdb ''ca.example.com:22''
            = [CertAlgoRSASHA512v01, CertAlgoRSASHA256v01, CertAlgoRSAv01]"
    using HostKeyAlgorithms_ca_substitution [of ?rdb "''ca.example.com:22''" ?rk ?rk] by blast
  then have r: "HostKeyAlgorithms ?rdb ''ca.example.com:22''
            = [CertAlgoRSASHA512v01, CertAlgoRSASHA256v01, CertAlgoRSAv01]"
    using rh by (simp add: KeyAlgoRSA_def)
  from e r h rh show ?thesis
    by (simp add: KeyAlgoED25519_def CertAlgo_defs)
qed

text \<open>
  C3. For a key type that the switch of \<open>keyTypeToCertAlgo\<close> does not list, the
  substitution is the empty string; and a CA-flagged known key of such a type puts the
  empty string into the result of \<open>HostKeyDB.HostKeyAlgorithms\<close>.
\<close>

theorem HostKeyAlgorithms_unmapped_ca_type:
  "(typ \<notin> set tableKeyTypes \<longrightarrow> keyTypeToCertAlgo typ = '''')
   \<and> (k \<in> set (HostKeys hkdb host) \<and> Cert k \<and> Type (PublicKey k) \<notin> set tableKeyTypes
      \<longrightarrow> '''' \<in> set (HostKeyAlgorithms hkdb host))"
proof -
  have empty: "keyTypeToCertAlgo t = []" if "t \<notin> set tableKeyTypes" for t
    using that by (simp add: tableKeyTypes_def keyTypeToCertAlgo_def)
  have "[] \<in> set (HostKeyAlgorithms hkdb host)"
    if "k \<in> set (HostKeys hkdb host)" and "Cert k" and "Type (PublicKey k) \<notin> set tableKeyTypes"
    using that last_emitted [of k] empty [of "Type (PublicKey k)"]
    by (auto simp add: set_HostKeyAlgorithms substituted_def)
  with empty show ?thesis by blast
qed

theorem HostKeyAlgorithms_unmapped_ca_type_witness:
  "''ssh-xmss@openssh.com'' \<notin> set tableKeyTypes
   \<and> keyTypeToCertAlgo ''ssh-xmss@openssh.com'' = ''''
   \<and> HostKeys \<lparr>callback = mismatch_callback ''ca.example.com:22''
                [key_at ''ssh-xmss@openssh.com'' ''AAAAFHNza'' ''known_hosts'' 7],
             isCert = [(''known_hosts:7'', True)]\<rparr> ''ca.example.com:22''
     = [\<lparr>PublicKey = \<lparr>Type = ''ssh-xmss@openssh.com'', Marshal = ''AAAAFHNza''\<rparr>, Cert = True\<rparr>]
   \<and> '''' \<in> set (HostKeyAlgorithms \<lparr>callback = mismatch_callback ''ca.example.com:22''
                [key_at ''ssh-xmss@openssh.com'' ''AAAAFHNza'' ''known_hosts'' 7],
             isCert = [(''known_hosts:7'', True)]\<rparr> ''ca.example.com:22'')"
proof -
  let ?db = "\<lparr>callback = mismatch_callback ''ca.example.com:22''
                [key_at ''ssh-xmss@openssh.com'' ''AAAAFHNza'' ''known_hosts'' 7],
             isCert = [(''known_hosts:7'', True)]\<rparr>"
  let ?k = "\<lparr>PublicKey = \<lparr>Type = ''ssh-xmss@openssh.com'', Marshal = ''AAAAFHNza''\<rparr>, Cert = True\<rparr>"
  have t: "''ssh-xmss@openssh.com'' \<notin> set tableKeyTypes"
    by (simp add: tableKeyTypes_def KeyAlgo_defs)
  have m: "mapKey ''known_hosts'' 7 = ''known_hosts:7''"
    by code_simp
  have h: "HostKeys ?db ''ca.example.com:22'' = [?k]"
    by (simp add: HostKeys_mismatch sort_Slice_single annotate_def key_at_def isCert_at_def m)
  have "keyTypeToCertAlgo ''ssh-xmss@openssh.com'' = ''''
        \<and> '''' \<in> set (HostKeyAlgorithms ?db ''ca.example.com:22'')"
    using HostKeyAlgorithms_unmapped_ca_type
            [of "''ssh-xmss@openssh.com''" ?k ?db "''ca.example.com:22''"] t h
    by simp
  then show ?thesis using t h by simp
qed

subsection \<open>No duplicates, first-seen order\<close>

text \<open>
  C4. The result of \<open>HostKeyDB.HostKeyAlgorithms\<close> has no duplicates; it is the sequence of
  the identifiers that the known keys emit, after substitution, each kept at its first
  occurrence; so every identifier in it occurs exactly once, also for a host with two
  known keys of the same type.
\<close>

theorem HostKeyAlgorithms_distinct_first_seen:
  "distinct (HostKeyAlgorithms hkdb host)
   \<and> HostKeyAlgorithms hkdb host = first_seen (concat (map emitted (HostKeys hkdb host)))
   \<and> (\<forall>a \<in> set (HostKeyAlgorithms hkdb host). count_list (HostKeyAlgorithms hkdb host) a = 1)"
proof -
  have d: "distinct (HostKeyAlgorithms hkdb host)"
    by (simp add: HostKeyAlgorithms_first_seen distinct_first_seen)
  then have "\<forall>a \<in> set (HostKeyAlgorithms hkdb host). count_list (HostKeyAlgorithms hkdb host) a = 1"
    by (simp add: distinct_count_one)
  with d show ?thesis by (simp add: HostKeyAlgorithms_first_seen)
qed

theorem HostKeyAlgorithms_distinct_first_seen_witness:
  "HostKeys \<lparr>callback = mismatch_callback ''example.com:22''
               [key_at KeyAlgoRSA ''AAAAB3Nzb'' ''known_hosts'' 9,
                key_at KeyAlgoRSA ''AAAAB3Nza'' ''known_hosts'' 4], isCert = []\<rparr>
      ''example.com:22''
     = [\<lparr>PublicKey = \<lparr>Type = ''ssh-rsa'', Marshal = ''AAAAB3Nza''\<rparr>, Cert = False\<rparr>,
        \<lparr>PublicKey = \<lparr>Type = ''ssh-rsa'', Marshal = ''AAAAB3Nzb''\<rparr>, Cert = False\<rparr>]
   \<and> HostKeyAlgorithms \<lparr>callback = mismatch_callback ''example.com:22''
               [key_at KeyAlgoRSA ''AAAAB3Nzb'' ''known_hosts'' 9,
                key_at KeyAlgoRSA ''AAAAB3Nza'' ''known_hosts'' 4], isCert = []\<rparr>
      ''example.com:22''
     = [''rsa-sha2-512'', ''rsa-sha2-256'', ''ssh-rsa'']
   \<and> distinct (HostKeyAlgorithms \<lparr>callback = mismatch_callback ''example.com:22''
               [key_at KeyAlgoRSA ''AAAAB3Nzb'' ''known_hosts'' 9,
                key_at KeyAlgoRSA ''AAAAB3Nza'' ''known_hosts'' 4], isCert = []\<rparr>
      ''example.com:22'')"
proof -
  let ?db = "\<lparr>callback = mismatch_callback ''example.com:22''
               [key_at KeyAlgoRSA ''AAAAB3Nzb'' ''known_hosts'' 9,
                key_at KeyAlgoRSA ''AAAAB3Nza'' ''known_hosts'' 4], isCert = []\<rparr>"
  have h: "HostKeys ?db ''example.com:22''
     = [\<lparr>PublicKey = \<lparr>Type = ''ssh-rsa'', Marshal = ''AAAAB3Nza''\<rparr>, Cert = False\<rparr>,
        \<lparr>PublicKey = \<lparr>Type = ''ssh-rsa'', Marshal = ''AAAAB3Nzb''\<rparr>, Cert = False\<rparr>]"
    by (simp add: HostKeys_mismatch sort_Slice_def knownKeyLess_def annotate_def key_at_def
        KeyAlgoRSA_def)
  have "HostKeyAlgorithms ?db ''example.com:22''
          = first_seen (concat (map emitted (HostKeys ?db ''example.com:22'')))
        \<and> distinct (HostKeyAlgorithms ?db ''example.com:22'')"
    using HostKeyAlgorithms_distinct_first_seen [of ?db "''example.com:22''"] by blast
  then show ?thesis using h
    by (simp add: emitted_def substituted_def KeyAlgo_defs)
qed

section \<open>The order of the known keys\<close>

subsection \<open>sort.Slice with a comparison by a key\<close>

lemma knownKeyLess_position: "knownKeyLess a b = (position a < position b)"
  by (auto simp add: knownKeyLess_def position_def)

lemma mset_insert_back: "mset (insert_back lessf x pre) = add_mset x (mset pre)"
  by (induction pre) auto

lemma set_insert_back: "set (insert_back lessf x pre) = insert x (set pre)"
  by (induction pre) auto

text \<open>The prefix is kept in reverse, so the invariant is that its keys descend.\<close>

lemma descending_insert_back:
  fixes f :: "'a \<Rightarrow> 'b::linorder"
  assumes "sorted_wrt (\<lambda>a b. f b \<le> f a) pre"
  shows "sorted_wrt (\<lambda>a b. f b \<le> f a) (insert_back (\<lambda>a b. f a < f b) x pre)"
  using assms
proof (induction pre)
  case Nil
  then show ?case by simp
next
  case (Cons y ys)
  show ?case
  proof (cases "f x < f y")
    case True
    with Cons show ?thesis by (auto simp add: set_insert_back)
  next
    case False
    with Cons.prems show ?thesis by (auto intro: order_trans)
  qed
qed

lemma foldl_insert_back:
  fixes f :: "'a \<Rightarrow> 'b::linorder"
  assumes "sorted_wrt (\<lambda>a b. f b \<le> f a) pre"
  shows "sorted_wrt (\<lambda>a b. f b \<le> f a)
           (foldl (\<lambda>pre x. insert_back (\<lambda>a b. f a < f b) x pre) pre xs)
         \<and> mset (foldl (\<lambda>pre x. insert_back (\<lambda>a b. f a < f b) x pre) pre xs)
             = mset pre + mset xs"
  using assms
proof (induction xs arbitrary: pre)
  case Nil
  then show ?case by simp
next
  case (Cons x xs)
  from Cons.IH [OF descending_insert_back [OF Cons.prems, of x]]
  show ?case by (simp add: mset_insert_back)
qed

lemma mset_sort_Slice:
  fixes f :: "'a \<Rightarrow> 'b::linorder"
  shows "mset (sort_Slice (\<lambda>a b. f a < f b) xs) = mset xs"
  using foldl_insert_back [of f "[]" xs] by (simp add: sort_Slice_def)

lemma sorted_sort_Slice:
  fixes f :: "'a \<Rightarrow> 'b::linorder"
  shows "sorted (map f (sort_Slice (\<lambda>a b. f a < f b) xs))"
proof -
  have "sorted_wrt (\<lambda>a b. f b \<le> f a)
          (foldl (\<lambda>pre x. insert_back (\<lambda>a b. f a < f b) x pre) [] xs)"
    using foldl_insert_back [of f "[]" xs] by simp
  then have "sorted_wrt (\<lambda>a b. f a \<le> f b) (sort_Slice (\<lambda>a b. f a < f b) xs)"
    by (simp add: sort_Slice_def sorted_wrt_rev)
  then show ?thesis by (simp add: sorted_map)
qed

text \<open>Two sorted arrangements of the same elements are equal when the key separates them.\<close>

lemma sorted_arrangement_unique:
  fixes f :: "'a \<Rightarrow> 'b::linorder"
  assumes "sorted (map f xs)" and "sorted (map f ys)" and "mset xs = mset ys"
    and "inj_on f (set xs)"
  shows "xs = ys"
proof -
  have s: "set ys = set xs" using assms(3) by (metis set_mset_mset)
  have "mset (map f ys) = mset (map f xs)" using assms(3) by simp
  then have "map f xs = map f ys"
    using assms(1,2) by (metis properties_for_sort)
  moreover have "inj_on f (set xs \<union> set ys)" using assms(4) s by simp
  ultimately show ?thesis by (simp add: inj_on_map_eq_map)
qed

lemma sort_Slice_knownKeyLess:
  "sort_Slice knownKeyLess want = sort_Slice (\<lambda>a b. position a < position b) want"
  by (simp add: knownKeyLess_position [abs_def])

text \<open>
  Where no two of the keys share a position, every sorted arrangement of them is the one
  computed here; so the result does not depend on the sorting algorithm of the library.
\<close>

lemma sort_Slice_knownKeyLess_unique:
  assumes "mset ks = mset want" and "sorted (map position ks)"
    and "inj_on position (set want)"
  shows "ks = sort_Slice knownKeyLess want"
proof -
  let ?r = "sort_Slice (\<lambda>a b. position a < position b) want"
  have m: "mset ks = mset ?r" using assms(1) by (simp only: mset_sort_Slice)
  have "set ks = set want" using assms(1) by (metis set_mset_mset)
  then have "inj_on position (set ks)" using assms(3) by (simp only:)
  from sorted_arrangement_unique [OF assms(2) sorted_sort_Slice m this]
  show ?thesis by (simp only: sort_Slice_knownKeyLess)
qed

lemma position_le:
  "(position a \<le> position b)
     = (Filename a < Filename b \<or> (Filename a = Filename b \<and> Line a \<le> Line b))"
  by (auto simp add: position_def)

lemma annotate_same_map:
  assumes "map_of (isCert hkdb') = map_of (isCert hkdb)"
  shows "annotate hkdb' = annotate hkdb"
proof -
  have "(isCert hkdb' = []) = (isCert hkdb = [])"
    using assms by (metis map_of_eq_empty_iff)
  then show ?thesis using assms by (auto simp add: annotate_def isCert_at_def fun_eq_iff)
qed

subsection \<open>HostKeys\<close>

text \<open>
  C5. When the callback answers with a \<open>KeyError\<close>, the result of \<open>HostKeyDB.HostKeys\<close> is
  the annotation of an arrangement of the wanted keys that ascends by file name and then
  by line number. A second database whose callback answers with the same keys in another
  order, as with the files passed in another order, gives the same result, where no two
  of the keys share a position.
\<close>

theorem HostKeys_sorted_by_position:
  "errors_As_KeyError (callback hkdb host placeholderAddr fakePublicKey) = Some want \<longrightarrow>
     (\<exists>ks. mset ks = mset want
        \<and> sorted_wrt (\<lambda>a b. Filename a < Filename b
                         \<or> (Filename a = Filename b \<and> Line a \<le> Line b)) ks
        \<and> HostKeys hkdb host = map (annotate hkdb) ks)
     \<and> (\<forall>(hkdb'::HostKeyDB) want'.
           errors_As_KeyError (callback hkdb' host placeholderAddr fakePublicKey) = Some want'
           \<and> mset want' = mset want \<and> inj_on position (set want)
           \<and> map_of (isCert hkdb') = map_of (isCert hkdb)
           \<longrightarrow> HostKeys hkdb' host = HostKeys hkdb host)"
proof (intro impI conjI allI)
  assume w: "errors_As_KeyError (callback hkdb host placeholderAddr fakePublicKey) = Some want"
  let ?ks = "sort_Slice knownKeyLess want"
  have hk: "HostKeys hkdb host = map (annotate hkdb) ?ks"
    by (simp only: HostKeys_def w option.case)
  have m: "mset ?ks = mset want"
    by (simp only: sort_Slice_knownKeyLess mset_sort_Slice)
  have s: "sorted (map position ?ks)"
    by (simp only: sort_Slice_knownKeyLess sorted_sort_Slice)
  then have o: "sorted_wrt (\<lambda>a b. Filename a < Filename b
                         \<or> (Filename a = Filename b \<and> Line a \<le> Line b)) ?ks"
    by (simp only: sorted_map position_le)
  show "\<exists>ks. mset ks = mset want
        \<and> sorted_wrt (\<lambda>a b. Filename a < Filename b
                         \<or> (Filename a = Filename b \<and> Line a \<le> Line b)) ks
        \<and> HostKeys hkdb host = map (annotate hkdb) ks"
    by (rule exI [of _ ?ks]) (intro conjI m o hk)
  fix hkdb' :: HostKeyDB and want'
  assume a: "errors_As_KeyError (callback hkdb' host placeholderAddr fakePublicKey) = Some want'
           \<and> mset want' = mset want \<and> inj_on position (set want)
           \<and> map_of (isCert hkdb') = map_of (isCert hkdb)"
  then have a1: "errors_As_KeyError (callback hkdb' host placeholderAddr fakePublicKey) = Some want'"
    and a2: "mset want' = mset want" and a3: "inj_on position (set want)"
    and a4: "map_of (isCert hkdb') = map_of (isCert hkdb)"
    by blast+
  let ?ks' = "sort_Slice knownKeyLess want'"
  have hk': "HostKeys hkdb' host = map (annotate hkdb') ?ks'"
    by (simp only: HostKeys_def a1 option.case)
  have "mset ?ks' = mset want'"
    by (simp only: sort_Slice_knownKeyLess mset_sort_Slice)
  then have m': "mset ?ks' = mset ?ks"
    by (simp only: a2 m)
  have s': "sorted (map position ?ks')"
    by (simp only: sort_Slice_knownKeyLess sorted_sort_Slice)
  have "set ?ks' = set want"
    using m' m by (metis set_mset_mset)
  then have "inj_on position (set ?ks')"
    by (simp only: a3)
  from sorted_arrangement_unique [OF s' s m' this]
  show "HostKeys hkdb' host = HostKeys hkdb host"
    by (simp only: hk hk' annotate_same_map [OF a4])
qed

theorem HostKeys_sorted_by_position_witness:
  "errors_As_KeyError
     (callback \<lparr>callback = mismatch_callback ''example.com:22''
                  [key_at KeyAlgoED25519 ''AAAAC3Nzb'' ''b_hosts'' 2,
                   key_at KeyAlgoRSA ''AAAAB3Nza'' ''a_hosts'' 11,
                   key_at KeyAlgoECDSA256 ''AAAAE2Vjc'' ''a_hosts'' 3],
                isCert = [(''a_hosts:11'', True)]\<rparr>
        ''example.com:22'' placeholderAddr fakePublicKey)
     = Some [key_at KeyAlgoED25519 ''AAAAC3Nzb'' ''b_hosts'' 2,
             key_at KeyAlgoRSA ''AAAAB3Nza'' ''a_hosts'' 11,
             key_at KeyAlgoECDSA256 ''AAAAE2Vjc'' ''a_hosts'' 3]
   \<and> HostKeys \<lparr>callback = mismatch_callback ''example.com:22''
                  [key_at KeyAlgoED25519 ''AAAAC3Nzb'' ''b_hosts'' 2,
                   key_at KeyAlgoRSA ''AAAAB3Nza'' ''a_hosts'' 11,
                   key_at KeyAlgoECDSA256 ''AAAAE2Vjc'' ''a_hosts'' 3],
                isCert = [(''a_hosts:11'', True)]\<rparr> ''example.com:22''
     = [\<lparr>PublicKey = \<lparr>Type = ''ecdsa-sha2-nistp256'', Marshal = ''AAAAE2Vjc''\<rparr>, Cert = False\<rparr>,
        \<lparr>PublicKey = \<lparr>Type = ''ssh-rsa'', Marshal = ''AAAAB3Nza''\<rparr>, Cert = True\<rparr>,
        \<lparr>PublicKey = \<lparr>Type = ''ssh-ed25519'', Marshal = ''AAAAC3Nzb''\<rparr>, Cert = False\<rparr>]
   \<and> HostKeys \<lparr>callback = mismatch_callback ''example.com:22''
                  [key_at KeyAlgoECDSA256 ''AAAAE2Vjc'' ''a_hosts'' 3,
                   key_at KeyAlgoRSA ''AAAAB3Nza'' ''a_hosts'' 11,
                   key_at KeyAlgoED25519 ''AAAAC3Nzb'' ''b_hosts'' 2],
                isCert = [(''a_hosts:11'', True)]\<rparr> ''example.com:22''
     = HostKeys \<lparr>callback = mismatch_callback ''example.com:22''
                  [key_at KeyAlgoED25519 ''AAAAC3Nzb'' ''b_hosts'' 2,
                   key_at KeyAlgoRSA ''AAAAB3Nza'' ''a_hosts'' 11,
                   key_at KeyAlgoECDSA256 ''AAAAE2Vjc'' ''a_hosts'' 3],
                isCert = [(''a_hosts:11'', True)]\<rparr> ''example.com:22''"
proof -
  let ?want = "[key_at KeyAlgoED25519 ''AAAAC3Nzb'' ''b_hosts'' 2,
                key_at KeyAlgoRSA ''AAAAB3Nza'' ''a_hosts'' 11,
                key_at KeyAlgoECDSA256 ''AAAAE2Vjc'' ''a_hosts'' 3]"
  let ?want' = "[key_at KeyAlgoECDSA256 ''AAAAE2Vjc'' ''a_hosts'' 3,
                 key_at KeyAlgoRSA ''AAAAB3Nza'' ''a_hosts'' 11,
                 key_at KeyAlgoED25519 ''AAAAC3Nzb'' ''b_hosts'' 2]"
  let ?db = "\<lparr>callback = mismatch_callback ''example.com:22'' ?want,
              isCert = [(''a_hosts:11'', True)]\<rparr>"
  let ?db' = "\<lparr>callback = mismatch_callback ''example.com:22'' ?want',
               isCert = [(''a_hosts:11'', True)]\<rparr>"
  have w: "errors_As_KeyError (callback ?db ''example.com:22'' placeholderAddr fakePublicKey)
             = Some ?want"
    by (simp add: mismatch_callback_def errors_As_KeyError_def)
  have w': "errors_As_KeyError (callback ?db' ''example.com:22'' placeholderAddr fakePublicKey)
             = Some ?want'"
    by (simp add: mismatch_callback_def errors_As_KeyError_def)
  have m: "mset ?want' = mset ?want" by simp
  have i: "inj_on position (set ?want)"
    by (simp add: position_def key_at_def)
  have k1: "mapKey ''a_hosts'' 3 = ''a_hosts:3''" by code_simp
  have k2: "mapKey ''a_hosts'' 11 = ''a_hosts:11''" by code_simp
  have k3: "mapKey ''b_hosts'' 2 = ''b_hosts:2''" by code_simp
  have h: "HostKeys ?db ''example.com:22''
     = [\<lparr>PublicKey = \<lparr>Type = ''ecdsa-sha2-nistp256'', Marshal = ''AAAAE2Vjc''\<rparr>, Cert = False\<rparr>,
        \<lparr>PublicKey = \<lparr>Type = ''ssh-rsa'', Marshal = ''AAAAB3Nza''\<rparr>, Cert = True\<rparr>,
        \<lparr>PublicKey = \<lparr>Type = ''ssh-ed25519'', Marshal = ''AAAAC3Nzb''\<rparr>, Cert = False\<rparr>]"
    by (simp add: HostKeys_mismatch sort_Slice_def knownKeyLess_def annotate_def key_at_def
        isCert_at_def k1 k2 k3 KeyAlgo_defs)
  have c: "map_of (isCert ?db') = map_of (isCert ?db)" by simp
  note order_free =
    HostKeys_sorted_by_position [of ?db "''example.com:22''" ?want, THEN mp, OF w,
      THEN conjunct2, THEN spec, THEN spec, THEN mp, of ?db' ?want']
  have "HostKeys ?db' ''example.com:22'' = HostKeys ?db ''example.com:22''"
    by (rule order_free) (intro conjI w' m i c)
  with w h show ?thesis by (simp only: simp_thms)
qed

section \<open>Outcomes of the callback\<close>

subsection \<open>IsHostKeyChanged and IsHostUnknown\<close>

lemma errors_As_first:
  "errors_As e = (case KeyErrors_of e of [] \<Rightarrow> None | want # rest \<Rightarrow> Some want)"
  "errors_As_list es = (case KeyErrors_of_list es of [] \<Rightarrow> None | want # rest \<Rightarrow> Some want)"
  by (induction e and es rule: errors_As_errors_As_list.induct)
     (auto split: list.splits option.splits)

text \<open>
  C6. \<open>IsHostKeyChanged\<close> holds exactly of the errors in which \<open>errors.As\<close> finds a
  \<open>KeyError\<close> with a non-empty \<open>Want\<close>, \<open>IsHostUnknown\<close> exactly of those in which it finds
  one with an empty \<open>Want\<close>; the \<open>KeyError\<close> found is the first in the error's tree; and
  the two predicates never hold of the same error.
\<close>

theorem IsHostKeyChanged_IsHostUnknown:
  "(IsHostKeyChanged err = (\<exists>want. errors_As_KeyError err = Some want \<and> want \<noteq> []))
   \<and> (IsHostUnknown err = (errors_As_KeyError err = Some []))
   \<and> (IsHostKeyChanged (Some e) = (\<exists>want rest. KeyErrors_of e = want # rest \<and> want \<noteq> []))
   \<and> (IsHostUnknown (Some e) = (\<exists>rest. KeyErrors_of e = [] # rest))
   \<and> \<not> (IsHostKeyChanged err \<and> IsHostUnknown err)"
proof -
  have 1: "IsHostKeyChanged err = (\<exists>want. errors_As_KeyError err = Some want \<and> want \<noteq> [])"
    for err
    by (simp add: IsHostKeyChanged_def split: option.splits)
  have 2: "IsHostUnknown err = (errors_As_KeyError err = Some [])" for err
    by (simp add: IsHostUnknown_def split: option.splits)
  have 3: "errors_As_KeyError (Some e) = Some want = (\<exists>rest. KeyErrors_of e = want # rest)"
    for want
    by (simp add: errors_As_KeyError_def errors_As_first split: list.splits)
  have "IsHostKeyChanged (Some e) = (\<exists>want rest. KeyErrors_of e = want # rest \<and> want \<noteq> [])"
    unfolding 1 3 by blast
  moreover have "IsHostUnknown (Some e) = (\<exists>rest. KeyErrors_of e = [] # rest)"
    unfolding 2 3 by blast
  moreover have "\<not> (IsHostKeyChanged err \<and> IsHostUnknown err)"
    unfolding 1 2 by auto
  ultimately show ?thesis using 1 [of err] 2 [of err] by blast
qed

theorem IsHostKeyChanged_IsHostUnknown_witness:
  "IsHostKeyChanged (Some (Wrapped ''ssh: handshake failed''
      (KeyError [key_at KeyAlgoED25519 ''AAAAC3Nza'' ''known_hosts'' 2])))
   \<and> \<not> IsHostUnknown (Some (Wrapped ''ssh: handshake failed''
      (KeyError [key_at KeyAlgoED25519 ''AAAAC3Nza'' ''known_hosts'' 2])))
   \<and> KeyErrors_of (Wrapped ''ssh: handshake failed''
      (KeyError [key_at KeyAlgoED25519 ''AAAAC3Nza'' ''known_hosts'' 2]))
     = [[key_at KeyAlgoED25519 ''AAAAC3Nza'' ''known_hosts'' 2]]"
proof -
  let ?e = "Wrapped ''ssh: handshake failed''
      (KeyError [key_at KeyAlgoED25519 ''AAAAC3Nza'' ''known_hosts'' 2])"
  have k: "KeyErrors_of ?e = [[key_at KeyAlgoED25519 ''AAAAC3Nza'' ''known_hosts'' 2]]"
    by simp
  note t = IsHostKeyChanged_IsHostUnknown [of "Some ?e" ?e]
  have c: "IsHostKeyChanged (Some ?e)"
    using t k by (simp add: errors_As_KeyError_def)
  then have "\<not> IsHostUnknown (Some ?e)"
    using t by blast
  with c k show ?thesis by blast
qed

subsection \<open>Outcomes that are no KeyError\<close>

text \<open>
  C9, as the code has it. \<open>HostKeyDB.HostKeys\<close> has no error result. When the callback
  answers with silent success or with an error in which \<open>errors.As\<close> finds no \<open>KeyError\<close>,
  the result is the empty sequence, the same as for a host that is wholly unknown (a
  \<open>KeyError\<close> with an empty \<open>Want\<close>), and so is the result of \<open>HostKeyAlgorithms\<close>.
\<close>

theorem HostKeys_other_outcome_empty:
  "(errors_As_KeyError (callback hkdb host placeholderAddr fakePublicKey) = None
      \<or> errors_As_KeyError (callback hkdb host placeholderAddr fakePublicKey) = Some [])
   \<longrightarrow> HostKeys hkdb host = [] \<and> HostKeyAlgorithms hkdb host = []"
  by (auto simp add: HostKeys_def HostKeyAlgorithms_def sort_Slice_def)

theorem HostKeys_other_outcome_empty_witness:
  "errors_As_KeyError (callback \<lparr>callback = failing_callback
       ''knownhosts: SplitHostPort(example.com): missing port in address'', isCert = []\<rparr>
       ''example.com'' placeholderAddr fakePublicKey) = None
   \<and> HostKeys \<lparr>callback = failing_callback
       ''knownhosts: SplitHostPort(example.com): missing port in address'', isCert = []\<rparr>
       ''example.com'' = []"
proof -
  let ?db = "\<lparr>callback = failing_callback
       ''knownhosts: SplitHostPort(example.com): missing port in address'', isCert = []\<rparr>"
  have n: "errors_As_KeyError (callback ?db ''example.com'' placeholderAddr fakePublicKey) = None"
    by (simp add: failing_callback_def errors_As_KeyError_def)
  then have "HostKeys ?db ''example.com'' = []"
    using HostKeys_other_outcome_empty [of ?db "''example.com''"] by blast
  with n show ?thesis by blast
qed

text \<open>
  The claim C9 as it is written fails: an error of the callback that is no \<open>KeyError\<close> is
  not surfaced. \<open>HostKeys\<close> returns for it the very result it returns for an unknown host.
\<close>

theorem HostKeys_other_error_counterexample:
  "callback \<lparr>callback = failing_callback
       ''knownhosts: SplitHostPort(example.com): missing port in address'', isCert = []\<rparr>
     ''example.com'' placeholderAddr fakePublicKey
     = Some (ErrorString ''knownhosts: SplitHostPort(example.com): missing port in address'')
   \<and> HostKeys \<lparr>callback = failing_callback
       ''knownhosts: SplitHostPort(example.com): missing port in address'', isCert = []\<rparr>
       ''example.com'' = []
   \<and> HostKeys \<lparr>callback = mismatch_callback ''example.com:22'' [], isCert = []\<rparr>
       ''example.com:22'' = []
   \<and> HostKeys \<lparr>callback = failing_callback
       ''knownhosts: SplitHostPort(example.com): missing port in address'', isCert = []\<rparr>
       ''example.com''
     = HostKeys \<lparr>callback = mismatch_callback ''example.com:22'' [], isCert = []\<rparr>
       ''example.com:22''"
  by (simp add: failing_callback_def mismatch_callback_def HostKeys_def errors_As_KeyError_def
      sort_Slice_def)

section \<open>The variant without CA support\<close>

lemma annotate_nil: "annotate \<lparr>callback = cb, isCert = []\<rparr> kk = \<lparr>PublicKey = Key kk, Cert = False\<rparr>"
  by (simp add: annotate_def)

lemma PublicKey_annotate: "PublicKey (annotate hkdb kk) = Key kk"
  by (simp add: annotate_def)

lemma map_PublicKey_HostKeys:
  "map PublicKey (HostKeys \<lparr>callback = cb, isCert = m\<rparr> host)
     = (case errors_As_KeyError (cb host placeholderAddr fakePublicKey) of
          Some want \<Rightarrow> map Key (sort_Slice knownKeyLess want) | None \<Rightarrow> [])"
  by (simp add: HostKeys_def PublicKey_annotate comp_def split: option.splits)

lemma HostKeys_nil_unflagged:
  "HostKeys \<lparr>callback = cb, isCert = []\<rparr> host
     = map (\<lambda>k. \<lparr>PublicKey = k, Cert = False\<rparr>)
         (map PublicKey (HostKeys \<lparr>callback = cb, isCert = []\<rparr> host))"
  by (simp add: HostKeys_def annotate_nil comp_def split: option.splits)

lemma emitted_unflagged:
  "\<not> Cert k \<Longrightarrow>
     set (emitted k) \<subseteq> {Type (PublicKey k), KeyAlgoRSASHA512, KeyAlgoRSASHA256}"
  by (auto simp add: emitted_def substituted_def)

lemma RSASHA_not_CertAlgo: "KeyAlgoRSASHA512 \<notin> set CertAlgos" "KeyAlgoRSASHA256 \<notin> set CertAlgos"
  by (simp_all add: CertAlgos_def CertAlgo_defs KeyAlgo_defs)

text \<open>
  What the variant does: \<open>HostKeyCallback.HostKeyAlgorithms\<close> is
  \<open>HostKeyDB.HostKeyAlgorithms\<close> with the same callback and an empty CA index, and
  \<open>HostKeyCallback.HostKeys\<close> gives the keys of \<open>HostKeyDB.HostKeys\<close> in the same order,
  with any CA index; with the empty one each \<open>Cert\<close> flag is false. It makes no
  substitution, so each identifier it returns is the type of one of the keys or one of the
  two RSA SHA-2 identifiers.
\<close>

lemma HostKeyCallback_refinement:
  "HostKeyCallback_HostKeyAlgorithms cb host = HostKeyAlgorithms \<lparr>callback = cb, isCert = []\<rparr> host
   \<and> (\<forall>m. HostKeyCallback_HostKeys cb host
            = map PublicKey (HostKeys \<lparr>callback = cb, isCert = m\<rparr> host))
   \<and> HostKeys \<lparr>callback = cb, isCert = []\<rparr> host
       = map (\<lambda>k. \<lparr>PublicKey = k, Cert = False\<rparr>) (HostKeyCallback_HostKeys cb host)
   \<and> set (HostKeyCallback_HostKeyAlgorithms cb host)
       \<subseteq> Type ` set (HostKeyCallback_HostKeys cb host) \<union> {KeyAlgoRSASHA512, KeyAlgoRSASHA256}
   \<and> ((\<forall>k \<in> set (HostKeyCallback_HostKeys cb host). Type k \<notin> set CertAlgos)
       \<longrightarrow> (\<forall>a \<in> set (HostKeyCallback_HostKeyAlgorithms cb host). a \<notin> set CertAlgos))"
proof -
  let ?db = "\<lparr>callback = cb, isCert = []\<rparr>"
  have 1: "HostKeyCallback_HostKeyAlgorithms cb host = HostKeyAlgorithms ?db host"
    by (simp add: HostKeyCallback_HostKeyAlgorithms_def)
  have 2: "HostKeyCallback_HostKeys cb host
            = map PublicKey (HostKeys \<lparr>callback = cb, isCert = m\<rparr> host)" for m
    unfolding HostKeyCallback_HostKeys_def map_PublicKey_HostKeys ..
  have 3: "HostKeys ?db host
       = map (\<lambda>k. \<lparr>PublicKey = k, Cert = False\<rparr>) (HostKeyCallback_HostKeys cb host)"
    unfolding HostKeyCallback_HostKeys_def by (rule HostKeys_nil_unflagged)
  have unflagged: "\<not> Cert k" if "k \<in> set (HostKeys ?db host)" for k
    using that by (subst (asm) 3) auto
  have 4: "set (HostKeyCallback_HostKeyAlgorithms cb host)
       \<subseteq> Type ` set (HostKeyCallback_HostKeys cb host) \<union> {KeyAlgoRSASHA512, KeyAlgoRSASHA256}"
  proof
    fix a assume "a \<in> set (HostKeyCallback_HostKeyAlgorithms cb host)"
    then obtain k where k: "k \<in> set (HostKeys ?db host)" and a: "a \<in> set (emitted k)"
      by (auto simp add: 1 set_HostKeyAlgorithms)
    from a emitted_unflagged [OF unflagged [OF k]]
    have "a = Type (PublicKey k) \<or> a = KeyAlgoRSASHA512 \<or> a = KeyAlgoRSASHA256" by auto
    moreover have "PublicKey k \<in> set (HostKeyCallback_HostKeys cb host)"
      using k by (simp add: HostKeyCallback_HostKeys_def)
    ultimately show "a \<in> Type ` set (HostKeyCallback_HostKeys cb host)
                        \<union> {KeyAlgoRSASHA512, KeyAlgoRSASHA256}"
      by auto
  qed
  have 5: "\<forall>a \<in> set (HostKeyCallback_HostKeyAlgorithms cb host). a \<notin> set CertAlgos"
    if "\<forall>k \<in> set (HostKeyCallback_HostKeys cb host). Type k \<notin> set CertAlgos"
    using that 4 RSASHA_not_CertAlgo by auto
  from 1 2 3 4 5 show ?thesis by blast
qed

lemma HostKeyCallback_refinement_example:
  "HostKeyCallback_HostKeys (mismatch_callback ''ca.example.com:22''
        [key_at KeyAlgoED25519 ''AAAAC3Nza'' ''known_hosts'' 7]) ''ca.example.com:22''
     = [\<lparr>Type = ''ssh-ed25519'', Marshal = ''AAAAC3Nza''\<rparr>]
   \<and> HostKeyCallback_HostKeyAlgorithms (mismatch_callback ''ca.example.com:22''
        [key_at KeyAlgoED25519 ''AAAAC3Nza'' ''known_hosts'' 7]) ''ca.example.com:22''
     = [''ssh-ed25519'']
   \<and> ''ssh-ed25519'' \<notin> set CertAlgos
   \<and> HostKeyAlgorithms \<lparr>callback = mismatch_callback ''ca.example.com:22''
        [key_at KeyAlgoED25519 ''AAAAC3Nza'' ''known_hosts'' 7],
        isCert = [(''known_hosts:7'', True)]\<rparr> ''ca.example.com:22''
     = [''ssh-ed25519-cert-v01@openssh.com'']"
proof -
  let ?cb = "mismatch_callback ''ca.example.com:22''
        [key_at KeyAlgoED25519 ''AAAAC3Nza'' ''known_hosts'' 7]"
  let ?h = "''ca.example.com:22''"
  note t = HostKeyCallback_refinement [of ?cb ?h]
  have hk: "HostKeys \<lparr>callback = ?cb, isCert = []\<rparr> ?h
      = [\<lparr>PublicKey = \<lparr>Type = ''ssh-ed25519'', Marshal = ''AAAAC3Nza''\<rparr>, Cert = False\<rparr>]"
    by (simp add: HostKeys_mismatch sort_Slice_single annotate_def key_at_def KeyAlgoED25519_def)
  have "HostKeyCallback_HostKeys ?cb ?h
          = map PublicKey (HostKeys \<lparr>callback = ?cb, isCert = []\<rparr> ?h)"
    using t by blast
  then have k: "HostKeyCallback_HostKeys ?cb ?h
                  = [\<lparr>Type = ''ssh-ed25519'', Marshal = ''AAAAC3Nza''\<rparr>]"
    using hk by simp
  have n: "''ssh-ed25519'' \<notin> set CertAlgos"
    by (simp add: CertAlgos_def CertAlgo_defs)
  have "HostKeyCallback_HostKeyAlgorithms ?cb ?h = HostKeyAlgorithms \<lparr>callback = ?cb, isCert = []\<rparr> ?h"
    using t by blast
  then have a: "HostKeyCallback_HostKeyAlgorithms ?cb ?h = [''ssh-ed25519'']"
    using hk by (simp add: HostKeyAlgorithms_first_seen emitted_def substituted_def KeyAlgo_defs)
  have m: "mapKey ''known_hosts'' 7 = ''known_hosts:7''"
    by code_simp
  have "HostKeys \<lparr>callback = ?cb, isCert = [(''known_hosts:7'', True)]\<rparr> ?h
      = [\<lparr>PublicKey = \<lparr>Type = ''ssh-ed25519'', Marshal = ''AAAAC3Nza''\<rparr>, Cert = True\<rparr>]"
    by (simp add: HostKeys_mismatch sort_Slice_single annotate_def key_at_def
        KeyAlgoED25519_def isCert_at_def m)
  then have "HostKeyAlgorithms \<lparr>callback = ?cb, isCert = [(''known_hosts:7'', True)]\<rparr> ?h
     = [''ssh-ed25519-cert-v01@openssh.com'']"
    by (simp add: HostKeyAlgorithms_first_seen emitted_def substituted_def keyTypeToCertAlgo_def
        KeyAlgo_defs CertAlgo_defs)
  with k a n show ?thesis by blast
qed

text \<open>
  C10. The two refinement equalities of the claim hold (\<open>HostKeyCallback_refinement\<close>).
  Its last part is what the doc comments of \<open>HostKeyCallback.HostKeyAlgorithms\<close> and of the
  function \<open>HostKeyAlgorithms\<close> promise: the returned values will not include any
  \<open>ssh.CertAlgo*\<close> value. The code does not keep this promise. For a callback whose known
  key is itself of a certificate type (an \<open>ssh.Certificate\<close> is an \<open>ssh.PublicKey\<close> whose
  \<open>Type()\<close> is a certificate algorithm, and the matcher reads one from a known_hosts line
  whose key blob is a certificate), \<open>HostKeyCallback.HostKeyAlgorithms\<close> returns that
  certificate algorithm: the loop only leaves the substitution out and does not look at
  the type of the key.
\<close>

theorem HostKeyCallback_HostKeyAlgorithms_certificate_key:
  "HostKeyCallback_HostKeyAlgorithms (mismatch_callback ''example.com:22''
        [key_at CertAlgoED25519v01 ''AAAAIHNza'' ''known_hosts'' 1]) ''example.com:22''
     = [''ssh-ed25519-cert-v01@openssh.com'']
   \<and> CertAlgoED25519v01 = ''ssh-ed25519-cert-v01@openssh.com''
   \<and> ''ssh-ed25519-cert-v01@openssh.com'' \<in> set CertAlgos"
proof -
  have "HostKeys \<lparr>callback = mismatch_callback ''example.com:22''
        [key_at CertAlgoED25519v01 ''AAAAIHNza'' ''known_hosts'' 1], isCert = []\<rparr> ''example.com:22''
     = [\<lparr>PublicKey = \<lparr>Type = ''ssh-ed25519-cert-v01@openssh.com'', Marshal = ''AAAAIHNza''\<rparr>,
         Cert = False\<rparr>]"
    by (simp add: HostKeys_mismatch sort_Slice_single annotate_def key_at_def
        CertAlgoED25519v01_def)
  then show ?thesis
    by (simp add: HostKeyCallback_HostKeyAlgorithms_def HostKeyAlgorithms_first_seen emitted_def
        substituted_def KeyAlgo_defs CertAlgos_def CertAlgo_defs)
qed

section \<open>Normalize\<close>

subsection \<open>net.SplitHostPort\<close>

lemma IndexByteString_None: "(IndexByteString s c = None) = (c \<notin> set s)"
  by (induction s) auto

lemma IndexByteString_Some: "IndexByteString s c = Some i \<Longrightarrow> i < length s \<and> s ! i = c"
  by (induction s arbitrary: i) (auto split: if_splits)

lemma LastIndexByteString_Some: "LastIndexByteString s c = Some i \<Longrightarrow> i < length s"
  by (cases s) (auto simp add: LastIndexByteString_def)

text \<open>The two indexed reads of \<open>net.SplitHostPort\<close> are within the string.\<close>

lemma SplitHostPort_reads_in_range:
  "LastIndexByteString hostport c = Some i \<Longrightarrow> 0 < length hostport"
  "IndexByteString hostport c' = Some closing \<Longrightarrow> closing + 1 \<noteq> length hostport
     \<Longrightarrow> closing + 1 < length hostport"
  using LastIndexByteString_Some [of hostport c i] IndexByteString_Some [of hostport c' closing]
  by auto

lemma SplitHostPort_rest_Inr:
  "SplitHostPort_rest hostport i host j k = Inr (h, p)
     \<Longrightarrow> h = host \<and> p = drop (i + 1) hostport \<and> CHR ''['' \<notin> set (drop j hostport)"
  by (auto simp add: SplitHostPort_rest_def IndexByteString_None split: if_splits)

text \<open>A host that \<open>net.SplitHostPort\<close> returns has no opening bracket.\<close>

lemma SplitHostPort_host_no_bracket:
  assumes "SplitHostPort address = Inr (h, p)"
  shows "CHR ''['' \<notin> set h"
proof -
  from assms obtain i where i: "LastIndexByteString address (CHR '':'') = Some i"
    by (auto simp add: SplitHostPort_def split: option.splits)
  show ?thesis
  proof (cases "address ! 0 = CHR ''[''")
    case True
    with assms i obtain closing where
      r: "SplitHostPort_rest address i (take (closing - 1) (drop 1 address)) 1 (closing + 1)
            = Inr (h, p)"
      by (auto simp add: SplitHostPort_def split: option.splits if_splits)
    from SplitHostPort_rest_Inr [OF r]
    have "h = take (closing - 1) (drop 1 address)" and "CHR ''['' \<notin> set (drop 1 address)"
      by auto
    then show ?thesis by (auto dest: in_set_takeD)
  next
    case False
    with assms i have r: "SplitHostPort_rest address i (take i address) 0 0 = Inr (h, p)"
      by (auto simp add: SplitHostPort_def Let_def split: if_splits)
    from SplitHostPort_rest_Inr [OF r]
    have "h = take i address" and "CHR ''['' \<notin> set address" by auto
    then show ?thesis by (auto dest: in_set_takeD)
  qed
qed

lemma HasPrefix_bracket: "HasPrefix s ''['' \<Longrightarrow> CHR ''['' \<in> set s"
  by (cases s) (auto simp add: HasPrefix_def)

subsection \<open>The slice expression of Normalize\<close>

lemma go_slice_bracketed:
  assumes "HasPrefix s ''[''" and "HasSuffix s '']''"
  shows "go_slice s 1 (int (length s) - 1) = Some (butlast (tl s))"
proof -
  from assms(1) obtain t where s: "s = CHR ''['' # t"
    by (cases s) (auto simp add: HasPrefix_def)
  have "t \<noteq> []"
    using assms(2) s by (auto simp add: HasSuffix_def)
  then have "2 \<le> length s" using s by (cases t) auto
  moreover have "take (length s - 2) (tl s) = butlast (tl s)"
    using s by (simp add: butlast_conv_take)
  ultimately show ?thesis
    by (simp add: go_slice_def drop_Suc nat_diff_distrib numeral_2_eq_2)
qed

subsection \<open>Normalize\<close>

lemma Normalize_Inl:
  "SplitHostPort address = Inl e \<Longrightarrow>
     Normalize address
       = Some (if HasPrefix address ''['' \<and> HasSuffix address '']''
               then butlast (tl address) else address)"
  by (simp add: Normalize_def go_slice_bracketed)

lemma Normalize_Inr:
  assumes "SplitHostPort address = Inr (h, p)"
  shows "Normalize address = Some (if p = ''22'' then h else ''['' @ h @ '']:'' @ p)"
proof -
  have "\<not> HasPrefix h ''[''"
    using SplitHostPort_host_no_bracket [OF assms] HasPrefix_bracket by blast
  then show ?thesis using assms by (simp add: Normalize_def)
qed

text \<open>
  C7. \<open>Normalize\<close> returns a string for every address (its slice expression never
  panics). When the address cannot be split, it is the host and the port is \<open>22\<close>: the
  result is the address, without its surrounding brackets when it has them. When the
  address splits into host and port, the result is the bare host for port \<open>22\<close> (the
  split has removed the brackets of a bracketed host) and \<open>[host]:port\<close> otherwise.
\<close>

theorem Normalize_total_and_form:
  "(\<exists>s. Normalize address = Some s)
   \<and> (\<forall>e. SplitHostPort address = Inl e \<longrightarrow>
         Normalize address
           = Some (if HasPrefix address ''['' \<and> HasSuffix address '']''
                   then butlast (tl address) else address))
   \<and> (\<forall>h p. SplitHostPort address = Inr (h, p) \<longrightarrow>
         Normalize address = Some (if p = ''22'' then h else ''['' @ h @ '']:'' @ p))
   \<and> Normalize ''[::1]:22'' = Some ''::1''
   \<and> Normalize ''host'' = Some ''host''
   \<and> Normalize ''host:22'' = Some ''host''"
proof -
  have total: "\<exists>s. Normalize address = Some s"
  proof (cases "SplitHostPort address")
    case (Inl e)
    then show ?thesis by (simp add: Normalize_Inl)
  next
    case (Inr hp)
    then show ?thesis by (cases hp) (simp add: Normalize_Inr)
  qed
  have "Normalize ''[::1]:22'' = Some ''::1''" by code_simp
  moreover have "Normalize ''host'' = Some ''host''" by code_simp
  moreover have "Normalize ''host:22'' = Some ''host''" by code_simp
  ultimately show ?thesis using total Normalize_Inl Normalize_Inr by blast
qed

theorem Normalize_total_and_form_witness:
  "SplitHostPort ''[::1]:22'' = Inr (''::1'', ''22'')
   \<and> Normalize ''[::1]:22'' = Some ''::1''
   \<and> SplitHostPort ''[2001:db8::1]:2222'' = Inr (''2001:db8::1'', ''2222'')
   \<and> Normalize ''[2001:db8::1]:2222'' = Some ''[2001:db8::1]:2222''
   \<and> SplitHostPort ''[::1]'' = Inl (AddrError ''missing port in address'' ''[::1]'')
   \<and> Normalize ''[::1]'' = Some ''::1''"
proof -
  have a: "SplitHostPort ''[::1]:22'' = Inr (''::1'', ''22'')" by code_simp
  have b: "SplitHostPort ''[2001:db8::1]:2222'' = Inr (''2001:db8::1'', ''2222'')" by code_simp
  have c: "SplitHostPort ''[::1]'' = Inl (AddrError ''missing port in address'' ''[::1]'')"
    by code_simp
  have "Normalize ''[::1]:22'' = Some ''::1''"
    using Normalize_total_and_form [of "''[::1]:22''"] a by simp
  moreover have "Normalize ''[2001:db8::1]:2222'' = Some ''[2001:db8::1]:2222''"
    using Normalize_total_and_form [of "''[2001:db8::1]:2222''"] b by simp
  moreover have "Normalize ''[::1]'' = Some ''::1''"
    using Normalize_total_and_form [of "''[::1]''"] c by (simp add: HasPrefix_def HasSuffix_def)
  ultimately show ?thesis using a b c by blast
qed

section \<open>WriteKnownHost\<close>

lemma ContainsAny_tab_space:
  "ContainsAny s [CHR 0x09, CHR '' ''] = (CHR '' '' \<in> set s \<or> CHR 0x09 \<in> set s)"
  by (auto simp add: ContainsAny_def)

text \<open>
  C8. When the normalized hostname contains a space or a tab, \<open>WriteKnownHost\<close> returns
  the error \<open>knownhosts: hostname '...' contains spaces\<close> and the writer is as it was:
  its \<open>Write\<close> method has received nothing. This holds for every remote address, the nil
  one too, and every key.
\<close>

theorem WriteKnownHost_rejects_whitespace:
  assumes "Normalize hostname = Some hostnameNormalized"
    and "CHR '' '' \<in> set hostnameNormalized \<or> CHR 0x09 \<in> set hostnameNormalized"
  shows "WriteKnownHost encodeToString w hostname remote key
           = Some (w, Some (ErrorString
               (''knownhosts: hostname '' @ [CHR 0x27] @ hostnameNormalized @ [CHR 0x27]
                  @ '' contains spaces'')))"
  using assms by (simp add: WriteKnownHost_def ContainsAny_tab_space)

theorem WriteKnownHost_rejects_whitespace_witness:
  "Normalize ''my host:22'' = Some ''my host''
   \<and> (\<exists>msg. WriteKnownHost id buffer ''my host:22'' nil_Addr
               \<lparr>Type = KeyAlgoED25519, Marshal = ''AAAAC3Nza''\<rparr>
             = Some (buffer, Some (ErrorString msg)))
   \<and> received buffer = []"
proof -
  have n: "Normalize ''my host:22'' = Some ''my host''" by code_simp
  have s: "CHR '' '' \<in> set ''my host'' \<or> CHR 0x09 \<in> set ''my host''" by simp
  have "\<exists>msg. WriteKnownHost id buffer ''my host:22'' nil_Addr
               \<lparr>Type = KeyAlgoED25519, Marshal = ''AAAAC3Nza''\<rparr>
             = Some (buffer, Some (ErrorString msg))"
    using WriteKnownHost_rejects_whitespace [OF n s] by blast
  with n show ?thesis by (simp add: buffer_def)
qed

text \<open>For comparison, a hostname without whitespace: one line is written.\<close>

lemma WriteKnownHost_example:
  "WriteKnownHost id buffer ''example.com:2222'' (Addr ''192.0.2.7:2222'')
       \<lparr>Type = KeyAlgoED25519, Marshal = ''AAAAC3Nza''\<rparr>
     = Some (buffer\<lparr>received := [''[example.com]:2222,[192.0.2.7]:2222 ssh-ed25519 AAAAC3Nza''
                                    @ [CHR 0x0A]]\<rparr>, None)"
proof -
  have 1: "Normalize ''example.com:2222'' = Some ''[example.com]:2222''" by code_simp
  have 2: "Normalize ''192.0.2.7:2222'' = Some ''[192.0.2.7]:2222''" by code_simp
  have 3: "Normalize ''[example.com]:2222'' = Some ''[example.com]:2222''" by code_simp
  have 4: "Normalize ''[192.0.2.7]:2222'' = Some ''[192.0.2.7]:2222''" by code_simp
  show ?thesis
    by (simp add: WriteKnownHost_def 1 2 3 4 ContainsAny_tab_space knownhosts_Line_def Write_def
        buffer_def KeyAlgoED25519_def)
qed

end
